theory Spec2Isabelle
  imports Main "HOL-Library.AList"
begin

section \<open>JavaScript values\<close>

text \<open>
  The components exchange JSON with the server and keep it in React state as it
  arrived, so the values are modelled dynamically. \<open>JUndefined\<close> is the value of a
  missing property. An object is the list of its own properties; where a key occurs
  twice the first occurrence is the one in effect. Numbers are integers here: the
  code applies nothing to a number but the truthiness test. \<open>JBuiltin k\<close> is what a
  read of the key \<open>k\<close> finds on the prototype chain when the value has no own property
  of that name: a built-in function, or for \<open>__proto__\<close> the prototype object. The
  code tests such a value for truthiness and does nothing else with it.
\<close>

datatype jsval =
    JUndefined
  | JNull
  | JBool bool
  | JNum int
  | JStr string
  | JArr "jsval list"
  | JObj "(string \<times> jsval) list"
  | JBuiltin string

text \<open>A thrown exception, with its \<open>message\<close>.\<close>

datatype js_error = TypeError string | Error string

fun message :: "js_error \<Rightarrow> string" where
  "message (TypeError m) = m"
| "message (Error m) = m"

text \<open>\<open>error.message || fallback\<close>\<close>

definition message_or :: "js_error \<Rightarrow> string \<Rightarrow> string" where
  "message_or e fallback = (if message e = [] then fallback else message e)"

text \<open>The truthiness test behind \<open>!x\<close>, \<open>x || y\<close> and \<open>x ? a : b\<close>.\<close>

fun truthy :: "jsval \<Rightarrow> bool" where
  "truthy JUndefined = False"
| "truthy JNull = False"
| "truthy (JBool b) = b"
| "truthy (JNum n) = (n \<noteq> 0)"
| "truthy (JStr s) = (s \<noteq> [])"
| "truthy (JArr xs) = True"
| "truthy (JObj kvs) = True"
| "truthy (JBuiltin k) = True"

text \<open>\<open>a || b\<close> on values.\<close>

definition js_or :: "jsval \<Rightarrow> jsval \<Rightarrow> jsval" where
  "js_or a b = (if truthy a then a else b)"

text \<open>Decimal digits of a natural number, as a template literal prints it.\<close>

function show_nat :: "nat \<Rightarrow> string" where
  "show_nat n =
     (if n < 10 then [char_of (48 + n)]
      else show_nat (n div 10) @ [char_of (48 + n mod 10)])"
  by pat_completeness auto
termination
  by (relation "measure id") auto

declare show_nat.simps [simp del]

text \<open>
  An array index as a property key: the decimal numeral without leading zeros.
\<close>

definition index_of_key :: "nat \<Rightarrow> string \<Rightarrow> nat option" where
  "index_of_key len k = map_of (map (\<lambda>i. (show_nat i, i)) [0..<len]) k"

text \<open>
  The string-named members of the built-in prototypes (ECMAScript 2024 with its
  Annex B, as the current browsers have them). The lists for arrays, strings and
  numbers hold the names their prototypes add to those of \<open>Object.prototype\<close>, which
  every value below inherits as well.
\<close>

definition Object_prototype_keys :: "string list" where
  "Object_prototype_keys =
     [''constructor'', ''__defineGetter__'', ''__defineSetter__'', ''hasOwnProperty'',
      ''__lookupGetter__'', ''__lookupSetter__'', ''isPrototypeOf'',
      ''propertyIsEnumerable'', ''toString'', ''valueOf'', ''__proto__'',
      ''toLocaleString'']"

definition Array_prototype_keys :: "string list" where
  "Array_prototype_keys =
     [''at'', ''concat'', ''copyWithin'', ''entries'', ''every'', ''fill'', ''filter'',
      ''find'', ''findIndex'', ''findLast'', ''findLastIndex'', ''flat'', ''flatMap'',
      ''forEach'', ''includes'', ''indexOf'', ''join'', ''keys'', ''lastIndexOf'', ''map'',
      ''pop'', ''push'', ''reduce'', ''reduceRight'', ''reverse'', ''shift'', ''slice'',
      ''some'', ''sort'', ''splice'', ''toReversed'', ''toSorted'', ''toSpliced'',
      ''unshift'', ''values'', ''with'']"

definition String_prototype_keys :: "string list" where
  "String_prototype_keys =
     [''anchor'', ''at'', ''big'', ''blink'', ''bold'', ''charAt'', ''charCodeAt'',
      ''codePointAt'', ''concat'', ''endsWith'', ''fixed'', ''fontcolor'', ''fontsize'',
      ''includes'', ''indexOf'', ''isWellFormed'', ''italics'', ''lastIndexOf'', ''link'',
      ''localeCompare'', ''match'', ''matchAll'', ''normalize'', ''padEnd'', ''padStart'',
      ''repeat'', ''replace'', ''replaceAll'', ''search'', ''slice'', ''small'', ''split'',
      ''startsWith'', ''strike'', ''sub'', ''substr'', ''substring'', ''sup'',
      ''toLocaleLowerCase'', ''toLocaleUpperCase'', ''toLowerCase'', ''toUpperCase'',
      ''toWellFormed'', ''trim'', ''trimEnd'', ''trimLeft'', ''trimRight'', ''trimStart'']"

definition Number_prototype_keys :: "string list" where
  "Number_prototype_keys = [''toExponential'', ''toFixed'', ''toPrecision'']"

fun prototype_keys :: "jsval \<Rightarrow> string list" where
  "prototype_keys (JObj kvs) = Object_prototype_keys"
| "prototype_keys (JArr xs) = Array_prototype_keys @ Object_prototype_keys"
| "prototype_keys (JStr s) = String_prototype_keys @ Object_prototype_keys"
| "prototype_keys (JNum n) = Number_prototype_keys @ Object_prototype_keys"
| "prototype_keys (JBool b) = Object_prototype_keys"
| "prototype_keys v = []"

text \<open>What a read of \<open>k\<close> gives when \<open>v\<close> has no own property \<open>k\<close>.\<close>

definition inherited :: "jsval \<Rightarrow> string \<Rightarrow> jsval" where
  "inherited v k = (if k \<in> set (prototype_keys v) then JBuiltin k else JUndefined)"

text \<open>
  Property read \<open>v[k]\<close> (and \<open>v.k\<close>). On \<open>null\<close> and \<open>undefined\<close> it throws a
  TypeError (the message is the engine's; V8's wording is used). Otherwise it gives
  the own property \<open>k\<close> of \<open>v\<close>, or else the member \<open>k\<close> that \<open>v\<close> inherits, or else
  \<open>undefined\<close>. The own properties of a string or an array are \<open>length\<close> and the
  indices; for a string they are given as those of its bytes, which are the code's
  when the string is ASCII. No property of a \<open>JBuiltin\<close> is ever read by the code.
\<close>

definition cannot_read :: "string \<Rightarrow> string \<Rightarrow> js_error" where
  "cannot_read what k =
     TypeError (''Cannot read properties of '' @ what @ '' (reading '' @ [CHR 0x27] @ k @
                [CHR 0x27] @ '')'')"

fun js_get :: "jsval \<Rightarrow> string \<Rightarrow> js_error + jsval" where
  "js_get JUndefined k = Inl (cannot_read ''undefined'' k)"
| "js_get JNull k = Inl (cannot_read ''null'' k)"
| "js_get (JBool b) k = Inr (inherited (JBool b) k)"
| "js_get (JNum n) k = Inr (inherited (JNum n) k)"
| "js_get (JStr s) k =
     Inr (if k = ''length'' then JNum (int (length s))
          else case index_of_key (length s) k of
                 Some i \<Rightarrow> JStr [s ! i]
               | None \<Rightarrow> inherited (JStr s) k)"
| "js_get (JArr xs) k =
     Inr (if k = ''length'' then JNum (int (length xs))
          else case index_of_key (length xs) k of
                 Some i \<Rightarrow> xs ! i
               | None \<Rightarrow> inherited (JArr xs) k)"
| "js_get (JObj kvs) k =
     Inr (case map_of kvs k of Some v \<Rightarrow> v | None \<Rightarrow> inherited (JObj kvs) k)"
| "js_get (JBuiltin b) k = Inr JUndefined"

text \<open>The own enumerable properties an object spread \<open>{...v}\<close> copies.\<close>

fun own_props :: "jsval \<Rightarrow> (string \<times> jsval) list" where
  "own_props (JObj kvs) = kvs"
| "own_props (JArr xs) = zip (map show_nat [0..<length xs]) xs"
| "own_props (JStr s) = zip (map show_nat [0..<length s]) (map (\<lambda>c. JStr [c]) s)"
| "own_props v = []"

text \<open>\<open>{...c, [k]: v}\<close>\<close>

definition spread_with :: "jsval \<Rightarrow> string \<Rightarrow> jsval \<Rightarrow> jsval" where
  "spread_with c k v = JObj (AList.update k v (own_props c))"

text \<open>
  The mapping an object is: what each key reads as, whatever the order of the
  properties.
\<close>

definition mapping_of :: "jsval \<Rightarrow> (string \<rightharpoonup> jsval)" where
  "mapping_of v = map_of (own_props v)"

section \<open>HTTP\<close>

text \<open>
  A request is one call of \<open>fetch\<close>. Its outcome is a rejected promise (transport
  failure, with the error's message) or a response with a status; reading the body
  with \<open>response.json()\<close> gives a value or rejects with a message.
\<close>

datatype request =
    GetProfile string
  | GetSummary string
  | PostQuery string string
  | GetDocuments string
  | PostDocumentContent string

record 'a response =
  status :: nat
  body :: "string + 'a"

definition ok :: "'a response \<Rightarrow> bool" where
  "ok r = (200 \<le> status r \<and> status r \<le> 299)"

datatype 'a fetch_outcome = Rejected string | Resolved "'a response"

text \<open>
  What a component does to the world besides changing its own state: the requests it
  has issued so far and the lines it has written with \<open>console.error\<close> (the label and
  the error's message).
\<close>

record effects =
  requests :: "request list"
  console :: "(string \<times> string) list"

section \<open>App: selected patient and profile cache\<close>

definition PROFILE_CACHE_KEY :: string where
  "PROFILE_CACHE_KEY = ''patientProfileCache''"

text \<open>
  The state of \<open>App\<close>: its two \<open>useState\<close> cells, the browser's \<open>localStorage\<close>, and
  the calls of \<open>fetchAndCacheProfile\<close> that are suspended at their \<open>await\<close>. A suspended call
  keeps the \<open>profileCache\<close> its closure was created with.
\<close>

record app_state = effects +
  selectedPatient :: "string option"
  profileCache :: jsval
  localStorage :: "string \<rightharpoonup> string"
  pending :: "(string \<times> jsval) list"

definition App_init :: "(string \<rightharpoonup> string) \<Rightarrow> app_state" where
  "App_init storage =
     \<lparr> requests = [], console = [],
       selectedPatient = None, profileCache = JObj [], localStorage = storage,
       pending = [] \<rparr>"

text \<open>
  The effect that runs once after the first render. \<open>JSON.parse\<close> is the platform's: it
  returns a value or throws (\<open>Inl\<close>, with the message).
\<close>

definition loadFromStorage :: "(string \<Rightarrow> string + jsval) \<Rightarrow> app_state \<Rightarrow> app_state" where
  "loadFromStorage JSON_parse st =
     (case localStorage st PROFILE_CACHE_KEY of
        None \<Rightarrow> st
      | Some savedCache \<Rightarrow>
          if savedCache = [] then st
          else (case JSON_parse savedCache of
                  Inr v \<Rightarrow> st\<lparr>profileCache := v\<rparr>
                | Inl err \<Rightarrow>
                    st\<lparr>console := console st @ [(''Failed to parse profile cache:'', err)]\<rparr>))"

definition App_mount :: "(string \<Rightarrow> string + jsval) \<Rightarrow> (string \<rightharpoonup> string) \<Rightarrow> app_state" where
  "App_mount JSON_parse storage = loadFromStorage JSON_parse (App_init storage)"

text \<open>
  \<open>put\<close>: the two statements that follow every computation of a new cache object, the
  state update and the write of the whole serialised object to storage. The write
  is taken to succeed.
\<close>

definition put :: "(jsval \<Rightarrow> string) \<Rightarrow> jsval \<Rightarrow> app_state \<Rightarrow> app_state" where
  "put JSON_stringify newCache st =
     st\<lparr>profileCache := newCache,
        localStorage := (localStorage st)(PROFILE_CACHE_KEY \<mapsto> JSON_stringify newCache)\<rparr>"

text \<open>
  \<open>fetchAndCacheProfile\<close> up to its \<open>await\<close>: the request goes out and the call is
  suspended with the cache of the render that created it.
\<close>

definition fetchAndCacheProfile :: "string \<Rightarrow> app_state \<Rightarrow> app_state" where
  "fetchAndCacheProfile patientName st =
     st\<lparr>requests := requests st @ [GetProfile patientName],
        pending := pending st @ [(patientName, profileCache st)]\<rparr>"

text \<open>The rest of \<open>fetchAndCacheProfile\<close>, run when the request settles.\<close>

definition fetchAndCacheProfile_catch ::
  "(jsval \<Rightarrow> string) \<Rightarrow> string \<Rightarrow> jsval \<Rightarrow> string \<Rightarrow> app_state \<Rightarrow> app_state" where
  "fetchAndCacheProfile_catch JSON_stringify patientName captured msg st =
     put JSON_stringify (spread_with captured patientName JNull)
       (st\<lparr>console := console st @ [(''Error fetching profile:'', msg)]\<rparr>)"

definition fetchAndCacheProfile_resume ::
  "(jsval \<Rightarrow> string) \<Rightarrow> string \<Rightarrow> jsval \<Rightarrow> jsval fetch_outcome \<Rightarrow> app_state \<Rightarrow> app_state" where
  "fetchAndCacheProfile_resume JSON_stringify patientName captured outcome st =
     (case outcome of
        Rejected msg \<Rightarrow> fetchAndCacheProfile_catch JSON_stringify patientName captured msg st
      | Resolved r \<Rightarrow>
          if \<not> ok r then
            fetchAndCacheProfile_catch JSON_stringify patientName captured
              ''Network response was not ok'' st
          else (case body r of
                  Inl msg \<Rightarrow> fetchAndCacheProfile_catch JSON_stringify patientName captured msg st
                | Inr data \<Rightarrow>
                    put JSON_stringify (spread_with captured patientName data) st))"

text \<open>
  \<open>handlePatientSelect\<close>. Reading \<open>profileCache[patientName]\<close> throws when the cache
  is \<open>null\<close>; the handler then ends with that exception.
\<close>

definition handlePatientSelect :: "string \<Rightarrow> app_state \<Rightarrow> js_error + app_state" where
  "handlePatientSelect patientName st =
     (let st1 = st\<lparr>selectedPatient := Some patientName\<rparr> in
      case js_get (profileCache st) patientName of
        Inl e \<Rightarrow> Inl e
      | Inr entry \<Rightarrow>
          if \<not> truthy entry then Inr (fetchAndCacheProfile patientName st1)
          else Inr st1)"

text \<open>\<open>onBack\<close> of the patient view.\<close>

definition onBack :: "app_state \<Rightarrow> app_state" where
  "onBack st = st\<lparr>selectedPatient := None\<rparr>"

text \<open>
  The events of \<open>App\<close>: the two user actions and the settling of the \<open>i\<close>-th suspended
  request. A run stops at the first exception.
\<close>

datatype app_event = Select string | Back | ProfileSettled nat "jsval fetch_outcome"

definition app_step ::
  "(jsval \<Rightarrow> string) \<Rightarrow> app_event \<Rightarrow> app_state \<Rightarrow> js_error + app_state" where
  "app_step JSON_stringify ev st =
     (case ev of
        Select patientName \<Rightarrow> handlePatientSelect patientName st
      | Back \<Rightarrow> Inr (onBack st)
      | ProfileSettled i outcome \<Rightarrow>
          if i < length (pending st) then
            (case pending st ! i of
               (patientName, captured) \<Rightarrow>
                 Inr (fetchAndCacheProfile_resume JSON_stringify patientName captured outcome
                        (st\<lparr>pending := take i (pending st) @ drop (Suc i) (pending st)\<rparr>)))
          else Inr st)"

fun app_run ::
  "(jsval \<Rightarrow> string) \<Rightarrow> app_event list \<Rightarrow> app_state \<Rightarrow> js_error + app_state" where
  "app_run JSON_stringify [] st = Inr st"
| "app_run JSON_stringify (ev # evs) st =
     (case app_step JSON_stringify ev st of
        Inl e \<Rightarrow> Inl e
      | Inr st' \<Rightarrow> app_run JSON_stringify evs st')"

section \<open>Strings\<close>

text \<open>
  A string is the list of the bytes of its UTF-8 encoding. \<open>white_space\<close> lists the
  encodings of the code points that \<open>trim\<close> strips and the regular expression class
  \<open>\s\<close> matches: tab, line feed, vertical tab, form feed, carriage return, space,
  U+00A0, U+1680, U+2000 to U+200A, U+2028, U+2029, U+202F, U+205F, U+3000 and U+FEFF.
  In a UTF-8 string one of these byte sequences occurs only where the code point
  itself does.
\<close>

definition white_space :: "string list" where
  "white_space =
     [ [CHR 0x09], [CHR 0x0A], [CHR 0x0B], [CHR 0x0C], [CHR 0x0D], [CHR 0x20],
      [CHR 0xC2, CHR 0xA0],
      [CHR 0xE1, CHR 0x9A, CHR 0x80],
      [CHR 0xE2, CHR 0x80, CHR 0x80], [CHR 0xE2, CHR 0x80, CHR 0x81],
      [CHR 0xE2, CHR 0x80, CHR 0x82], [CHR 0xE2, CHR 0x80, CHR 0x83],
      [CHR 0xE2, CHR 0x80, CHR 0x84], [CHR 0xE2, CHR 0x80, CHR 0x85],
      [CHR 0xE2, CHR 0x80, CHR 0x86], [CHR 0xE2, CHR 0x80, CHR 0x87],
      [CHR 0xE2, CHR 0x80, CHR 0x88], [CHR 0xE2, CHR 0x80, CHR 0x89],
      [CHR 0xE2, CHR 0x80, CHR 0x8A],
      [CHR 0xE2, CHR 0x80, CHR 0xA8], [CHR 0xE2, CHR 0x80, CHR 0xA9],
      [CHR 0xE2, CHR 0x80, CHR 0xAF],
      [CHR 0xE2, CHR 0x81, CHR 0x9F],
      [CHR 0xE3, CHR 0x80, CHR 0x80],
      [CHR 0xEF, CHR 0xBB, CHR 0xBF]]"

text \<open>The white space a string begins with, and the one it ends with.\<close>

definition leading_space :: "string \<Rightarrow> string option" where
  "leading_space s = find (\<lambda>w. take (length w) s = w) white_space"

definition trailing_space :: "string \<Rightarrow> string option" where
  "trailing_space s =
     find (\<lambda>w. length w \<le> length s \<and> drop (length s - length w) s = w) white_space"

function trimStart :: "string \<Rightarrow> string" where
  "trimStart s =
     (case leading_space s of
        None \<Rightarrow> s
      | Some w \<Rightarrow> trimStart (drop (length w) s))"
  by pat_completeness auto
termination
proof (relation "measure length")
  show "wf (measure length)" by simp
next
  fix s w
  assume "leading_space s = Some w"
  then have "w \<in> set white_space" and t: "take (length w) s = w"
    by (auto simp: leading_space_def find_Some_iff)
  then have "w \<noteq> []"
    by (auto simp: white_space_def)
  with t have "0 < length w" and "s \<noteq> []"
    by auto
  then show "(drop (length w) s, s) \<in> measure length"
    by simp
qed

function trimEnd :: "string \<Rightarrow> string" where
  "trimEnd s =
     (case trailing_space s of
        None \<Rightarrow> s
      | Some w \<Rightarrow> trimEnd (take (length s - length w) s))"
  by pat_completeness auto
termination
proof (relation "measure length")
  show "wf (measure length)" by simp
next
  fix s w
  assume "trailing_space s = Some w"
  then have "w \<in> set white_space" and l: "length w \<le> length s"
    by (auto simp: trailing_space_def find_Some_iff)
  then have "w \<noteq> []"
    by (auto simp: white_space_def)
  with l have "0 < length w" and "s \<noteq> []"
    by auto
  then show "(take (length s - length w) s, s) \<in> measure length"
    by simp
qed

declare trimStart.simps [simp del] trimEnd.simps [simp del]

definition trim :: "string \<Rightarrow> string" where
  "trim s = trimEnd (trimStart s)"





text \<open>
  The string a value turns into where a string is expected (\<open>new Error(v)\<close>, a
  template literal); for a number, its decimal digits (as the code prints a number
  below 10^21).
\<close>

fun join_with :: "string \<Rightarrow> string list \<Rightarrow> string" where
  "join_with sep [] = []"
| "join_with sep [x] = x"
| "join_with sep (x # y # ys) = x @ sep @ join_with sep (y # ys)"

fun to_js_string :: "jsval \<Rightarrow> string" where
  "to_js_string JUndefined = ''undefined''"
| "to_js_string JNull = ''null''"
| "to_js_string (JBool b) = (if b then ''true'' else ''false'')"
| "to_js_string (JNum n) = (if n < 0 then ''-'' @ show_nat (nat (- n)) else show_nat (nat n))"
| "to_js_string (JStr s) = s"
| "to_js_string (JArr xs) =
     join_with '','' (map (\<lambda>x. case x of JUndefined \<Rightarrow> [] | JNull \<Rightarrow> [] | _ \<Rightarrow> to_js_string x) xs)"
| "to_js_string (JObj kvs) = ''[object Object]''"
| "to_js_string (JBuiltin k) = ''function '' @ k @ ''() { [native code] }''"

section \<open>PatientChat: summary, chat, documents\<close>

datatype sender = user | bot

record chat_message =
  sender :: sender
  text_of :: jsval
  timestamp :: nat
  isError :: bool

text \<open>
  An entry of the document list, at the type the list endpoint is documented to
  return: the fields are strings, and \<open>category\<close> and \<open>classification\<close> may be
  absent (\<open>None\<close>). A field that is present but is not a string, \<open>null\<close> included,
  is outside this type.
\<close>

record document_ref =
  filename :: string
  path :: string
  category :: "string option"
  classification :: "string option"

text \<open>The object held in \<open>selectedDoc\<close>.\<close>

record selected_doc =
  shown_filename :: string
  content :: jsval
  shown_classification :: jsval

text \<open>
  The state of one mounted \<open>PatientChat\<close>: the \<open>patientName\<close> it was given and its
  twelve \<open>useState\<close> cells.
\<close>

record chat_state = effects +
  patientName :: string
  profileData :: jsval
  isLoading :: bool
  profileError :: string
  messages :: "chat_message list"
  query :: string
  isQueryLoading :: bool
  isExpanded :: bool
  isModalOpen :: bool
  documents :: "document_ref list"
  isLoadingDocs :: bool
  selectedDoc :: "selected_doc option"
  docError :: string

definition PatientChat_init :: "string \<Rightarrow> chat_state" where
  "PatientChat_init name =
     \<lparr> requests = [], console = [],
       patientName = name, profileData = JNull, isLoading = True, profileError = [],
       messages = [], query = [], isQueryLoading = False, isExpanded = False,
       isModalOpen = False, documents = [], isLoadingDocs = False, selectedDoc = None,
       docError = [] \<rparr>"

subsection \<open>Summary\<close>

text \<open>\<open>fetchPatientSummary\<close> up to its \<open>await\<close>.\<close>

definition fetchPatientSummary :: "chat_state \<Rightarrow> chat_state" where
  "fetchPatientSummary st =
     (if patientName st = [] then st
      else st\<lparr>isLoading := True, profileError := [],
              requests := requests st @ [GetSummary (patientName st)]\<rparr>)"

text \<open>The effect that runs after the first render calls it.\<close>

definition PatientChat_mount :: "string \<Rightarrow> chat_state" where
  "PatientChat_mount name = fetchPatientSummary (PatientChat_init name)"

text \<open>\<open>s?.k\<close>: \<open>undefined\<close> when \<open>s\<close> is \<open>null\<close> or \<open>undefined\<close>, the property otherwise.\<close>

definition optional_get :: "jsval \<Rightarrow> string \<Rightarrow> jsval" where
  "optional_get s k =
     (case s of
        JUndefined \<Rightarrow> JUndefined
      | JNull \<Rightarrow> JUndefined
      | _ \<Rightarrow> (case js_get s k of Inr v \<Rightarrow> v | Inl e \<Rightarrow> JUndefined))"

text \<open>The object literal passed to \<open>setProfileData\<close>; reading \<open>data.summary\<close> may throw.\<close>

definition normalized_summary :: "jsval \<Rightarrow> js_error + jsval" where
  "normalized_summary data =
     (case js_get data ''summary'' of
        Inl e \<Rightarrow> Inl e
      | Inr s \<Rightarrow>
          Inr (JObj
            [(''medication_summary'',
                js_or (optional_get s ''medication_summary'')
                  (JStr ''No medication information available.'')),
             (''lifestyle_recommendations'',
                js_or (optional_get s ''lifestyle_recommendations'')
                  (JStr ''No lifestyle recommendations available.'')),
             (''condition_summary'',
                js_or (optional_get s ''condition_summary'')
                  (JStr ''No condition information available.''))]))"

text \<open>The \<open>try\<close> block after the \<open>await\<close>: the exception thrown or the object to hold.\<close>

definition fetchPatientSummary_try :: "string \<Rightarrow> jsval fetch_outcome \<Rightarrow> js_error + jsval" where
  "fetchPatientSummary_try name outcome =
     (case outcome of
        Rejected msg \<Rightarrow> Inl (Error msg)
      | Resolved r \<Rightarrow>
          if \<not> ok r then
            (if status r = 404 then
               Inl (Error (''No summary found for '' @ [CHR 0x22] @ name @ [CHR 0x22] @ ''.''))
             else Inl (Error (''Server error: '' @ show_nat (status r))))
          else (case body r of
                  Inl msg \<Rightarrow> Inl (Error msg)
                | Inr data \<Rightarrow> normalized_summary data))"

definition fetchPatientSummary_resume ::
  "string \<Rightarrow> jsval fetch_outcome \<Rightarrow> chat_state \<Rightarrow> chat_state" where
  "fetchPatientSummary_resume name outcome st =
     (case fetchPatientSummary_try name outcome of
        Inr summary \<Rightarrow> st\<lparr>profileData := summary, isLoading := False\<rparr>
      | Inl e \<Rightarrow>
          st\<lparr>console := console st @ [(''Error fetching patient summary:'', message e)],
             profileError := message_or e ''Could not load patient summary.'',
             profileData := JNull,
             isLoading := False\<rparr>)"

subsection \<open>Chat\<close>

text \<open>
  \<open>handleQuerySubmit\<close> up to its \<open>await\<close>; \<open>now\<close> is the value of \<open>new Date()\<close>.
\<close>

definition handleQuerySubmit :: "nat \<Rightarrow> chat_state \<Rightarrow> chat_state" where
  "handleQuerySubmit now st =
     (if trim (query st) = [] \<or> isQueryLoading st then st
      else
        st\<lparr>messages := messages st @
               [\<lparr>sender = user, text_of = JStr (query st), timestamp = now, isError = False\<rparr>],
           isQueryLoading := True,
           query := [],
           requests := requests st @ [PostQuery (patientName st) (query st)]\<rparr>)"

text \<open>The list \<open>newMessages\<close> the suspended call keeps.\<close>

definition newMessages :: "nat \<Rightarrow> chat_state \<Rightarrow> chat_message list" where
  "newMessages now st =
     messages st @
       [\<lparr>sender = user, text_of = JStr (query st), timestamp = now, isError = False\<rparr>]"

text \<open>
  The \<open>try\<close> block after the \<open>await\<close>: the exception thrown or the text of the answer.
  \<open>JSON.stringify(v, null, 2)\<close> is the platform's; of \<open>undefined\<close> it is \<open>undefined\<close>.
\<close>

definition handleQuerySubmit_try ::
  "(jsval \<Rightarrow> string) \<Rightarrow> jsval fetch_outcome \<Rightarrow> js_error + jsval" where
  "handleQuerySubmit_try JSON_stringify_indented outcome =
     (case outcome of
        Rejected msg \<Rightarrow> Inl (Error msg)
      | Resolved r \<Rightarrow>
          if \<not> ok r then
            (let errorData = (case body r of Inl msg \<Rightarrow> JObj [] | Inr d \<Rightarrow> d) in
             case js_get errorData ''detail'' of
               Inl e \<Rightarrow> Inl e
             | Inr detail \<Rightarrow>
                 Inl (Error (if truthy detail then to_js_string detail
                             else ''Server responded with '' @ show_nat (status r))))
          else (case body r of
                  Inl msg \<Rightarrow> Inl (Error msg)
                | Inr data \<Rightarrow>
                    (case js_get data ''answer'' of
                       Inl e \<Rightarrow> Inl e
                     | Inr answer \<Rightarrow>
                         Inr (case answer of
                                JStr s \<Rightarrow> JStr s
                              | JUndefined \<Rightarrow> JUndefined
                              | _ \<Rightarrow> JStr (JSON_stringify_indented answer)))))"

definition handleQuerySubmit_resume ::
  "(jsval \<Rightarrow> string) \<Rightarrow> chat_message list \<Rightarrow> nat \<Rightarrow> jsval fetch_outcome \<Rightarrow>
     chat_state \<Rightarrow> chat_state" where
  "handleQuerySubmit_resume JSON_stringify_indented kept now outcome st =
     (case handleQuerySubmit_try JSON_stringify_indented outcome of
        Inr botText \<Rightarrow>
          st\<lparr>messages := kept @
                 [\<lparr>sender = bot, text_of = botText, timestamp = now, isError = False\<rparr>],
             isQueryLoading := False\<rparr>
      | Inl e \<Rightarrow>
          st\<lparr>console := console st @ [(''Chat error:'', message e)],
             messages := kept @
                 [\<lparr>sender = bot,
                   text_of = JStr (''Sorry, I encountered an error: '' @ message e @
                     ''. Please ensure the backend server is running on port 8000.''),
                   timestamp = now, isError = True\<rparr>],
             isQueryLoading := False\<rparr>)"

subsection \<open>Document list\<close>

text \<open>\<open>openDocumentsModal\<close> up to its \<open>await\<close>.\<close>

definition openDocumentsModal :: "chat_state \<Rightarrow> chat_state" where
  "openDocumentsModal st =
     (if length (documents st) > 0 then st\<lparr>isModalOpen := True\<rparr>
      else st\<lparr>isModalOpen := True, isLoadingDocs := True, docError := [],
              requests := requests st @ [GetDocuments (patientName st)]\<rparr>)"

definition openDocumentsModal_catch :: "js_error \<Rightarrow> chat_state \<Rightarrow> chat_state" where
  "openDocumentsModal_catch e st =
     st\<lparr>console := console st @ [(''Error fetching documents:'', message e)],
        docError := message_or e ''Could not load documents. Please check backend.'',
        isLoadingDocs := False\<rparr>"

definition openDocumentsModal_resume ::
  "document_ref list fetch_outcome \<Rightarrow> chat_state \<Rightarrow> chat_state" where
  "openDocumentsModal_resume outcome st =
     (case outcome of
        Rejected msg \<Rightarrow> openDocumentsModal_catch (Error msg) st
      | Resolved r \<Rightarrow>
          if \<not> ok r then
            openDocumentsModal_catch
              (Error (''Failed to fetch documents: '' @ show_nat (status r))) st
          else (case body r of
                  Inl msg \<Rightarrow> openDocumentsModal_catch (Error msg) st
                | Inr docsList \<Rightarrow>
                    st\<lparr>documents := docsList,
                       docError := (if length docsList = 0
                                    then ''No documents found for this patient.''
                                    else docError st),
                       isLoadingDocs := False\<rparr>))"

definition closeModal :: "chat_state \<Rightarrow> chat_state" where
  "closeModal st = st\<lparr>isModalOpen := False, selectedDoc := None, docError := []\<rparr>"

subsection \<open>Document content\<close>

text \<open>\<open>viewDocumentContent\<close> up to its \<open>await\<close>.\<close>

definition viewDocumentContent :: "document_ref \<Rightarrow> chat_state \<Rightarrow> chat_state" where
  "viewDocumentContent doc st =
     st\<lparr>selectedDoc :=
          Some \<lparr>shown_filename = filename doc, content = JStr ''Loading...'',
                shown_classification = JStr []\<rparr>,
        docError := [],
        requests := requests st @ [PostDocumentContent (path doc)]\<rparr>"

text \<open>
  The \<open>try\<close> block after the \<open>await\<close>: the exception thrown or the object passed to
  \<open>setSelectedDoc\<close>. The suspended call keeps the \<open>doc\<close> it was called with.
\<close>

definition viewDocumentContent_try ::
  "document_ref \<Rightarrow> jsval fetch_outcome \<Rightarrow> js_error + selected_doc" where
  "viewDocumentContent_try doc outcome =
     (case outcome of
        Rejected msg \<Rightarrow> Inl (Error msg)
      | Resolved r \<Rightarrow>
          if \<not> ok r then Inl (Error (''Failed to load document: '' @ show_nat (status r)))
          else (case body r of
                  Inl msg \<Rightarrow> Inl (Error msg)
                | Inr data \<Rightarrow>
                    (case js_get data ''content'' of
                       Inl e \<Rightarrow> Inl e
                     | Inr c \<Rightarrow>
                         (case js_get data ''classification'' of
                            Inl e \<Rightarrow> Inl e
                          | Inr cl \<Rightarrow>
                              Inr \<lparr>shown_filename = filename doc, content = c,
                                   shown_classification = cl\<rparr>))))"

definition viewDocumentContent_resume ::
  "document_ref \<Rightarrow> jsval fetch_outcome \<Rightarrow> chat_state \<Rightarrow> chat_state" where
  "viewDocumentContent_resume doc outcome st =
     (case viewDocumentContent_try doc outcome of
        Inr shown \<Rightarrow> st\<lparr>selectedDoc := Some shown\<rparr>
      | Inl e \<Rightarrow>
          st\<lparr>console := console st @ [(''Error loading content:'', message e)],
             docError := message_or e ''Could not load document content.'',
             selectedDoc :=
               Some \<lparr>shown_filename = filename doc,
                     content = JStr ''Error loading content. Please try again.'',
                     shown_classification = JStr []\<rparr>\<rparr>)"

text \<open>The button \<open>Back to document list\<close>.\<close>

definition backToDocumentList :: "chat_state \<Rightarrow> chat_state" where
  "backToDocumentList st = st\<lparr>selectedDoc := None\<rparr>"

subsection \<open>Grouping and rendering the document list\<close>

text \<open>\<open>doc.category || 'Other'\<close>\<close>

definition group_key :: "document_ref \<Rightarrow> string" where
  "group_key doc =
     (case category doc of
        None \<Rightarrow> ''Other''
      | Some c \<Rightarrow> if c = [] then ''Other'' else c)"

text \<open>\<open>xs.reduce(f, init)\<close> where \<open>f\<close> may throw: the first exception ends the loop.\<close>

fun reduce_throwing :: "('b \<Rightarrow> 'a \<Rightarrow> js_error + 'b) \<Rightarrow> 'a list \<Rightarrow> 'b \<Rightarrow> js_error + 'b" where
  "reduce_throwing f [] acc = Inr acc"
| "reduce_throwing f (x # xs) acc =
     (case f acc x of
        Inl e \<Rightarrow> Inl e
      | Inr acc' \<Rightarrow> reduce_throwing f xs acc')"

text \<open>
  The body of the reducer. \<open>groups\<close> is the object built so far, as the list of its
  own properties in the order they were added; it starts as \<open>{}\<close>, so behind the own
  properties are the members of \<open>Object.prototype\<close>. Where \<open>groups[cat]\<close> is an own
  property it is the array of that group, and the document is pushed. Where it is
  \<open>undefined\<close> the group starts as \<open>[]\<close>. Where it is an inherited member, that member
  is truthy and is kept by \<open>||\<close>; it has no \<open>push\<close>, and the call throws.
\<close>

definition group_step ::
  "(string \<times> document_ref list) list \<Rightarrow> document_ref \<Rightarrow>
     js_error + (string \<times> document_ref list) list" where
  "group_step groups doc =
     (let cat = group_key doc in
      case map_of groups cat of
        Some ds \<Rightarrow> Inr (AList.update cat (ds @ [doc]) groups)
      | None \<Rightarrow>
          if cat \<in> set Object_prototype_keys
          then Inl (TypeError ''groups[cat].push is not a function'')
          else Inr (AList.update cat [doc] groups))"

definition groupedDocuments ::
  "document_ref list \<Rightarrow> js_error + (string \<times> document_ref list) list" where
  "groupedDocuments docs = reduce_throwing group_step docs []"









section \<open>The platform's JSON functions at the examples\<close>

text \<open>
  \<open>JSON.stringify\<close> and \<open>JSON.parse\<close> belong to the browser, and the functions above
  take them as arguments. The two tables below give their values at the cache
  objects and the stored strings of the examples that follow, and nowhere else.
\<close>

definition example_cache_0 :: jsval where
  "example_cache_0 = JObj [(''Jane Doe'', JNull)]"

definition example_cache_1 :: jsval where
  "example_cache_1 = JObj [(''Jane Doe'', JObj [(''age'', JNum 61)])]"

definition example_cache_2 :: jsval where
  "example_cache_2 = JObj [(''Jane Doe'', JObj [(''age'', JNum 61)]), (''John Roe'', JNull)]"

definition example_payload_0 :: string where
  \<open>example_payload_0 = ''{"Jane Doe":null}''\<close>

definition example_payload_1 :: string where
  \<open>example_payload_1 = ''{"Jane Doe":{"age":61}}''\<close>

definition example_payload_2 :: string where
  \<open>example_payload_2 = ''{"Jane Doe":{"age":61},"John Roe":null}''\<close>

definition example_stringify :: "jsval \<Rightarrow> string" where
  "example_stringify v =
     (if v = example_cache_0 then example_payload_0
      else if v = example_cache_1 then example_payload_1
      else if v = example_cache_2 then example_payload_2
      else ''{}'')"

definition example_parse :: "string \<Rightarrow> string + jsval" where
  "example_parse s =
     (if s = example_payload_0 then Inr example_cache_0
      else if s = example_payload_1 then Inr example_cache_1
      else if s = example_payload_2 then Inr example_cache_2
      else if s = ''{}'' then Inr (JObj [])
      else if s = ''null'' then Inr JNull
      else Inl ''Unexpected token'')"

text \<open>
  What holds of storage after any run that started at \<open>st0\<close>: nothing has been
  written yet, or the stored string is the serialised current cache.
\<close>

definition written :: "(jsval \<Rightarrow> string) \<Rightarrow> app_state \<Rightarrow> app_state \<Rightarrow> bool" where
  "written S st0 st \<longleftrightarrow>
     (localStorage st = localStorage st0 \<and> profileCache st = profileCache st0) \<or>
     localStorage st PROFILE_CACHE_KEY = Some (S (profileCache st))"

section \<open>Re-selecting a patient\<close>

lemma handlePatientSelect_falsy:
  assumes "js_get (profileCache st) name = Inr entry" and "\<not> truthy entry"
  shows "handlePatientSelect name st =
           Inr (st\<lparr>selectedPatient := Some name,
                   requests := requests st @ [GetProfile name],
                   pending := pending st @ [(name, profileCache st)]\<rparr>)"
  using assms by (simp add: handlePatientSelect_def fetchAndCacheProfile_def)

lemma handlePatientSelect_truthy:
  assumes "js_get (profileCache st) name = Inr entry" and "truthy entry"
  shows "handlePatientSelect name st = Inr (st\<lparr>selectedPatient := Some name\<rparr>)"
  using assms by (simp add: handlePatientSelect_def)

lemma js_get_no_entry:
  assumes "map_of entries name = None" and "name \<notin> set Object_prototype_keys"
  shows "js_get (JObj entries) name = Inr JUndefined"
  using assms by (simp add: inherited_def)

lemma js_get_inherited_name:
  assumes "map_of entries name = None" and "name \<in> set Object_prototype_keys"
  shows "js_get (JObj entries) name = Inr (JBuiltin name)"
  using assms by (simp add: inherited_def)

text \<open>
  C1. The claim: when the cache entry of a patient is the failed-fetch sentinel
  \<open>null\<close>, selecting the patient again issues no request. The code tests the entry
  for truthiness, and \<open>null\<close> is falsy like the \<open>undefined\<close> of a missing entry: the
  selection issues the profile request again.
\<close>

theorem handlePatientSelect_refetches_failed:
  assumes "js_get (profileCache st) name = Inr JNull"
  shows "\<exists>st'. handlePatientSelect name st = Inr st' \<and>
               requests st' = requests st @ [GetProfile name]"
  using handlePatientSelect_falsy [OF assms] by simp

theorem handlePatientSelect_refetches_failed_witness:
  "js_get (profileCache ((App_init Map.empty)\<lparr>profileCache := JObj [(''Jane Doe'', JNull)]\<rparr>))
       ''Jane Doe'' = Inr JNull \<and>
   (\<exists>st'. handlePatientSelect ''Jane Doe''
            ((App_init Map.empty)\<lparr>profileCache := JObj [(''Jane Doe'', JNull)]\<rparr>) = Inr st' \<and>
          requests st' = [GetProfile ''Jane Doe''])"
proof -
  let ?st = "(App_init Map.empty)\<lparr>profileCache := JObj [(''Jane Doe'', JNull)]\<rparr>"
  have h: "js_get (profileCache ?st) ''Jane Doe'' = Inr JNull"
    by simp
  have r: "requests ?st = []"
    by (simp add: App_init_def)
  show ?thesis
    using h handlePatientSelect_refetches_failed [OF h] unfolding r by simp
qed

text \<open>
  The same from the start: select a patient, let the request fail with status 500, go
  back and select the patient again. The cache holds \<open>null\<close> for the patient, and two
  requests have gone out.
\<close>

lemma reselect_after_failure_example:
  "app_run example_stringify
     [Select ''Jane Doe'',
      ProfileSettled 0 (Resolved \<lparr>status = 500, body = Inl ''Unexpected token''\<rparr>),
      Back,
      Select ''Jane Doe'']
     (App_mount example_parse Map.empty)
   = Inr \<lparr>requests = [GetProfile ''Jane Doe'', GetProfile ''Jane Doe''],
          console = [(''Error fetching profile:'', ''Network response was not ok'')],
          selectedPatient = Some ''Jane Doe'',
          profileCache = example_cache_0,
          localStorage = [PROFILE_CACHE_KEY \<mapsto> example_payload_0],
          pending = [(''Jane Doe'', example_cache_0)]\<rparr>"
  by (simp add: App_mount_def loadFromStorage_def App_init_def app_step_def
        handlePatientSelect_def fetchAndCacheProfile_def onBack_def
        fetchAndCacheProfile_resume_def fetchAndCacheProfile_catch_def put_def
        spread_with_def ok_def example_stringify_def example_cache_0_def
        inherited_def Object_prototype_keys_def)

text \<open>
  A name that the cache does not hold but every object inherits reads as the
  inherited member, which is truthy: the selection issues no request.
\<close>

lemma handlePatientSelect_inherited_name:
  assumes "profileCache st = JObj entries" and "map_of entries name = None"
    and "name \<in> set Object_prototype_keys"
  shows "handlePatientSelect name st = Inr (st\<lparr>selectedPatient := Some name\<rparr>)"
proof -
  have "js_get (profileCache st) name = Inr (JBuiltin name)"
    unfolding assms(1) using assms(2,3) by (rule js_get_inherited_name)
  then show ?thesis
    by (rule handlePatientSelect_truthy) simp
qed

text \<open>
  C2, as the code has it. Take a patient that the cache object has no entry for and
  whose name is not one that objects inherit. Selecting the patient issues exactly one
  profile request and leaves the cache as it was, and the patient view that mounts
  issues exactly one summary request. \<open>App\<close> keeps no record of requests in flight
  that a selection would consult: going back and selecting the same patient while
  the first request is pending finds the cache still without an entry and issues the
  profile request a second time.
\<close>

theorem select_uncached_fetches_each_time:
  assumes "profileCache st = JObj entries" and "map_of entries name = None"
    and "name \<notin> set Object_prototype_keys"
  shows "\<exists>s1 s2.
           handlePatientSelect name st = Inr s1 \<and>
           requests s1 = requests st @ [GetProfile name] \<and>
           pending s1 = pending st @ [(name, profileCache st)] \<and>
           profileCache s1 = profileCache st \<and>
           handlePatientSelect name (onBack s1) = Inr s2 \<and>
           requests s2 = requests st @ [GetProfile name, GetProfile name] \<and>
           requests (PatientChat_mount name) = (if name = [] then [] else [GetSummary name])"
proof -
  let ?s1 = "st\<lparr>selectedPatient := Some name,
                 requests := requests st @ [GetProfile name],
                 pending := pending st @ [(name, profileCache st)]\<rparr>"
  have read: "js_get (profileCache st) name = Inr JUndefined"
    unfolding assms(1) using assms(2,3) by (rule js_get_no_entry)
  have first: "handlePatientSelect name st = Inr ?s1"
    using handlePatientSelect_falsy [OF read] by simp
  have "js_get (profileCache (onBack ?s1)) name = Inr JUndefined"
    using read by (simp add: onBack_def)
  then have "\<exists>s2. handlePatientSelect name (onBack ?s1) = Inr s2 \<and>
               requests s2 = requests (onBack ?s1) @ [GetProfile name]"
    using handlePatientSelect_falsy [of "onBack ?s1" name JUndefined] by simp
  then obtain s2 where
    "handlePatientSelect name (onBack ?s1) = Inr s2"
    "requests s2 = requests (onBack ?s1) @ [GetProfile name]"
    by blast
  with first show ?thesis
    by (simp add: onBack_def PatientChat_mount_def fetchPatientSummary_def PatientChat_init_def)
qed

theorem select_uncached_fetches_each_time_witness:
  "profileCache (App_init Map.empty) = JObj [] \<and>
   map_of ([] :: (string \<times> jsval) list) ''Jane Doe'' = None \<and>
   ''Jane Doe'' \<notin> set Object_prototype_keys \<and>
   (\<exists>s1 s2.
      handlePatientSelect ''Jane Doe'' (App_init Map.empty) = Inr s1 \<and>
      requests s1 = [GetProfile ''Jane Doe''] \<and>
      pending s1 = [(''Jane Doe'', JObj [])] \<and>
      profileCache s1 = JObj [] \<and>
      handlePatientSelect ''Jane Doe'' (onBack s1) = Inr s2 \<and>
      requests s2 = [GetProfile ''Jane Doe'', GetProfile ''Jane Doe''] \<and>
      requests (PatientChat_mount ''Jane Doe'') = [GetSummary ''Jane Doe''])"
proof -
  have c: "profileCache (App_init Map.empty) = JObj []"
    by (simp add: App_init_def)
  have m: "map_of ([] :: (string \<times> jsval) list) ''Jane Doe'' = None"
    by simp
  have n: "''Jane Doe'' \<notin> set Object_prototype_keys"
    by (simp add: Object_prototype_keys_def)
  have e: "requests (App_init Map.empty) = []" "pending (App_init Map.empty) = []"
    by (simp_all add: App_init_def)
  show ?thesis
    using c m n select_uncached_fetches_each_time [OF c m n] unfolding e by simp
qed

text \<open>
  C2, as claimed: a second selection while the fetch is in flight triggers no second
  fetch. From the initial state, select, go back and select again: the first request
  is still pending, and two requests have gone out.
\<close>

theorem select_uncached_twice_counterexample:
  "(case handlePatientSelect ''Jane Doe'' (App_init Map.empty) of
      Inl e \<Rightarrow> None
    | Inr s1 \<Rightarrow>
        (case handlePatientSelect ''Jane Doe'' (onBack s1) of
           Inl e \<Rightarrow> None
         | Inr s2 \<Rightarrow> Some (pending s1, requests s2)))
   = Some ([(''Jane Doe'', JObj [])], [GetProfile ''Jane Doe'', GetProfile ''Jane Doe''])"
  by (simp add: handlePatientSelect_def fetchAndCacheProfile_def App_init_def onBack_def
        inherited_def Object_prototype_keys_def)

section \<open>Chat submission\<close>

lemma find_the_only:
  assumes "w \<in> set xs" and "P w" and "\<And>x. x \<in> set xs \<Longrightarrow> P x \<Longrightarrow> x = w"
  shows "find P xs = Some w"
  using assms
proof (induction xs)
  case Nil
  then show ?case by simp
next
  case (Cons y ys)
  show ?case
  proof (cases "P y")
    case True
    then have "y = w" using Cons.prems(3) [of y] by simp
    with True show ?thesis by simp
  next
    case False
    with Cons.prems(1,2) have "w \<in> set ys" by auto
    then have "find P ys = Some w"
      using Cons.prems(2,3) by (intro Cons.IH) auto
    with False show ?thesis by simp
  qed
qed

lemma white_space_nonempty: "w \<in> set white_space \<Longrightarrow> w \<noteq> []"
  by (auto simp: white_space_def)

text \<open>No white space sequence begins another one.\<close>

lemma white_space_prefix_free_table:
  "list_all (\<lambda>a. list_all (\<lambda>b. take (length a) b = a \<longrightarrow> a = b) white_space) white_space"
  by code_simp

lemma white_space_prefix_free:
  assumes "a \<in> set white_space" and "b \<in> set white_space" and "take (length a) b = a"
  shows "a = b"
  using white_space_prefix_free_table assms by (auto simp: list_all_iff)

lemma leading_space_append:
  assumes "w \<in> set white_space"
  shows "leading_space (w @ t) = Some w"
  unfolding leading_space_def
proof (rule find_the_only [OF assms])
  show "take (length w) (w @ t) = w" by simp
next
  fix x
  assume x: "x \<in> set white_space" and p: "take (length x) (w @ t) = x"
  show "x = w"
  proof (cases "length x \<le> length w")
    case True
    with p have "take (length x) w = x" by simp
    with x assms show ?thesis by (rule white_space_prefix_free)
  next
    case False
    then have "length w \<le> length x" by simp
    from p have "take (length w) (take (length x) (w @ t)) = take (length w) x" by simp
    with \<open>length w \<le> length x\<close> have "take (length w) x = w"
      by (simp add: min_def)
    with assms x have "w = x" by (rule white_space_prefix_free)
    then show ?thesis by simp
  qed
qed

lemma trimStart_append:
  assumes "w \<in> set white_space"
  shows "trimStart (w @ t) = trimStart t"
  by (subst trimStart.simps) (simp add: leading_space_append [OF assms])

lemma leading_space_Nil: "leading_space [] = None"
  by (auto simp: leading_space_def find_None_iff dest: white_space_nonempty)

lemma trailing_space_Nil: "trailing_space [] = None"
  by (auto simp: trailing_space_def find_None_iff dest: white_space_nonempty)

lemma trimStart_concat:
  assumes "set ws \<subseteq> set white_space"
  shows "trimStart (concat ws) = []"
  using assms
proof (induction ws)
  case Nil
  show ?case by (subst trimStart.simps) (simp add: leading_space_Nil)
next
  case (Cons w ws)
  then show ?case by (simp add: trimStart_append)
qed

lemma trim_white_space:
  assumes "set ws \<subseteq> set white_space"
  shows "trim (concat ws) = []"
  unfolding trim_def trimStart_concat [OF assms]
  by (subst trimEnd.simps) (simp add: trailing_space_Nil)

lemma handleQuerySubmit_noop:
  "trim (query st) = [] \<or> isQueryLoading st \<Longrightarrow> handleQuerySubmit now st = st"
  by (simp add: handleQuerySubmit_def)

text \<open>
  C6. A submission whose input is empty or consists of white space only (any
  sequence of the code points that \<open>trim\<close> strips), and a submission made while an
  earlier one is in flight (\<open>isQueryLoading\<close>), changes nothing: the transcript, the
  requests issued, the loading flag and the input stay as they were.
\<close>

theorem handleQuerySubmit_rejected:
  assumes "(\<exists>ws. set ws \<subseteq> set white_space \<and> query st = concat ws) \<or> isQueryLoading st"
  shows "handleQuerySubmit now st = st"
proof -
  from assms have "trim (query st) = [] \<or> isQueryLoading st"
    by (auto simp: trim_white_space)
  then show ?thesis by (rule handleQuerySubmit_noop)
qed

theorem handleQuerySubmit_rejected_witness:
  "handleQuerySubmit 7
     ((PatientChat_init ''Jane Doe'')
        \<lparr>query := [CHR 0x20, CHR 0xC2, CHR 0xA0, CHR 0x09, CHR 0xE2, CHR 0x80, CHR 0xA8,
                   CHR 0xEF, CHR 0xBB, CHR 0xBF]\<rparr>) =
     (PatientChat_init ''Jane Doe'')
        \<lparr>query := [CHR 0x20, CHR 0xC2, CHR 0xA0, CHR 0x09, CHR 0xE2, CHR 0x80, CHR 0xA8,
                   CHR 0xEF, CHR 0xBB, CHR 0xBF]\<rparr> \<and>
   handleQuerySubmit 7 (PatientChat_init ''Jane Doe'') = PatientChat_init ''Jane Doe'' \<and>
   isQueryLoading (handleQuerySubmit 1 ((PatientChat_init ''Jane Doe'')\<lparr>query := ''Hello''\<rparr>)) \<and>
   handleQuerySubmit 2
     ((handleQuerySubmit 1 ((PatientChat_init ''Jane Doe'')\<lparr>query := ''Hello''\<rparr>))
        \<lparr>query := ''What medications?''\<rparr>) =
     (handleQuerySubmit 1 ((PatientChat_init ''Jane Doe'')\<lparr>query := ''Hello''\<rparr>))
        \<lparr>query := ''What medications?''\<rparr>"
proof -
  let ?q = "[CHR 0x20, CHR 0xC2, CHR 0xA0, CHR 0x09, CHR 0xE2, CHR 0x80, CHR 0xA8,
             CHR 0xEF, CHR 0xBB, CHR 0xBF]"
  let ?ws = "[ [CHR 0x20], [CHR 0xC2, CHR 0xA0], [CHR 0x09], [CHR 0xE2, CHR 0x80, CHR 0xA8],
              [CHR 0xEF, CHR 0xBB, CHR 0xBF]]"
  let ?blank = "(PatientChat_init ''Jane Doe'')\<lparr>query := ?q\<rparr>"
  let ?empty = "PatientChat_init ''Jane Doe''"
  let ?sent = "handleQuerySubmit 1 ((PatientChat_init ''Jane Doe'')\<lparr>query := ''Hello''\<rparr>)"
  let ?busy = "?sent\<lparr>query := ''What medications?''\<rparr>"
  have "set ?ws \<subseteq> set white_space"
    by code_simp
  then have b: "set ?ws \<subseteq> set white_space \<and> query ?blank = concat ?ws"
    by simp
  have e: "set [] \<subseteq> set white_space \<and> query ?empty = concat []"
    by (simp add: PatientChat_init_def)
  have hello: "trim ''Hello'' = ''Hello''"
    by code_simp
  have l: "isQueryLoading ?sent"
    by (simp add: handleQuerySubmit_def hello PatientChat_init_def)
  then have l': "isQueryLoading ?busy" by simp
  from b have 1: "handleQuerySubmit 7 ?blank = ?blank"
    by (intro handleQuerySubmit_rejected disjI1 exI)
  from e have 2: "handleQuerySubmit 7 ?empty = ?empty"
    by (intro handleQuerySubmit_rejected disjI1 exI)
  from l' have 3: "handleQuerySubmit 2 ?busy = ?busy"
    by (intro handleQuerySubmit_rejected disjI2)
  from 1 2 l 3 show ?thesis by simp
qed

lemma leading_space_SomeD:
  assumes "leading_space s = Some w"
  shows "w \<in> set white_space \<and> s = w @ drop (length w) s"
proof -
  from assms have "w \<in> set white_space" and t: "take (length w) s = w"
    by (auto simp: leading_space_def find_Some_iff)
  moreover from t have "s = w @ drop (length w) s"
    by (metis append_take_drop_id)
  ultimately show ?thesis by simp
qed

lemma trailing_space_SomeD:
  assumes "trailing_space s = Some w"
  shows "w \<in> set white_space \<and> s = take (length s - length w) s @ w"
proof -
  from assms have "w \<in> set white_space" and t: "drop (length s - length w) s = w"
    by (auto simp: trailing_space_def find_Some_iff)
  moreover from t have "s = take (length s - length w) s @ w"
    by (metis append_take_drop_id)
  ultimately show ?thesis by simp
qed

lemma trimStart_no_leading_space: "leading_space (trimStart s) = None"
proof (induction s rule: trimStart.induct)
  case (1 s)
  show ?case
  proof (cases "leading_space s")
    case None
    then show ?thesis by (subst trimStart.simps) simp
  next
    case (Some w)
    with "1.IH" [OF Some] show ?thesis by (subst trimStart.simps) simp
  qed
qed

lemma trimStart_strips_white_space:
  "\<exists>ws. set ws \<subseteq> set white_space \<and> s = concat ws @ trimStart s"
proof (induction s rule: trimStart.induct)
  case (1 s)
  show ?case
  proof (cases "leading_space s")
    case None
    then have "trimStart s = s" by (subst trimStart.simps) simp
    then have "set [] \<subseteq> set white_space \<and> s = concat [] @ trimStart s" by simp
    then show ?thesis by blast
  next
    case (Some w)
    from "1.IH" [OF Some] obtain ws where
      ws: "set ws \<subseteq> set white_space"
        "drop (length w) s = concat ws @ trimStart (drop (length w) s)"
      by blast
    from Some have t: "trimStart s = trimStart (drop (length w) s)"
      by (subst trimStart.simps) simp
    from leading_space_SomeD [OF Some] have w: "w \<in> set white_space"
      and s: "s = w @ drop (length w) s" by simp_all
    from s ws(2) t have "s = concat (w # ws) @ trimStart s" by simp
    moreover from w ws(1) have "set (w # ws) \<subseteq> set white_space" by simp
    ultimately show ?thesis by blast
  qed
qed

lemma trimEnd_strips_white_space:
  "\<exists>ws. set ws \<subseteq> set white_space \<and> s = trimEnd s @ concat ws"
proof (induction s rule: trimEnd.induct)
  case (1 s)
  show ?case
  proof (cases "trailing_space s")
    case None
    then have "trimEnd s = s" by (subst trimEnd.simps) simp
    then have "set [] \<subseteq> set white_space \<and> s = trimEnd s @ concat []" by simp
    then show ?thesis by blast
  next
    case (Some w)
    let ?r = "take (length s - length w) s"
    from "1.IH" [OF Some] obtain ws where
      ws: "set ws \<subseteq> set white_space" "?r = trimEnd ?r @ concat ws"
      by blast
    from Some have t: "trimEnd s = trimEnd ?r"
      by (subst trimEnd.simps) simp
    from trailing_space_SomeD [OF Some] have w: "w \<in> set white_space"
      and s: "s = ?r @ w" by simp_all
    from s ws(2) t have "s = trimEnd s @ concat (ws @ [w])"
      by (metis append.assoc append_Nil2 concat.simps concat_append)
    moreover from w ws(1) have "set (ws @ [w]) \<subseteq> set white_space" by simp
    ultimately show ?thesis by blast
  qed
qed

lemma concat_white_space_leading:
  assumes "set ws \<subseteq> set white_space" and "concat ws \<noteq> []"
  shows "leading_space (concat ws) \<noteq> None"
proof (cases ws)
  case Nil
  with assms(2) show ?thesis by simp
next
  case (Cons w ws')
  with assms(1) have "w \<in> set white_space" by simp
  from leading_space_append [OF this, of "concat ws'"] Cons show ?thesis by simp
qed

text \<open>The inputs that \<open>trim\<close> empties are the white space inputs, and no others.\<close>

lemma trim_empty_iff:
  "trim s = [] \<longleftrightarrow> (\<exists>ws. set ws \<subseteq> set white_space \<and> s = concat ws)"
proof
  assume e: "trim s = []"
  from trimEnd_strips_white_space [of "trimStart s"] e obtain ws' where
    ws': "set ws' \<subseteq> set white_space" "trimStart s = concat ws'"
    by (auto simp: trim_def)
  have "concat ws' = []"
  proof (rule ccontr)
    assume "concat ws' \<noteq> []"
    with ws'(1) have "leading_space (concat ws') \<noteq> None"
      by (rule concat_white_space_leading)
    with ws'(2) trimStart_no_leading_space [of s] show False by simp
  qed
  with ws'(2) have "trimStart s = []" by simp
  with trimStart_strips_white_space [of s] show "\<exists>ws. set ws \<subseteq> set white_space \<and> s = concat ws"
    by auto
next
  assume "\<exists>ws. set ws \<subseteq> set white_space \<and> s = concat ws"
  then show "trim s = []" by (auto simp: trim_white_space)
qed

text \<open>The submissions that change nothing are those, and no others.\<close>

lemma handleQuerySubmit_noop_iff:
  "handleQuerySubmit now st = st \<longleftrightarrow>
     (\<exists>ws. set ws \<subseteq> set white_space \<and> query st = concat ws) \<or> isQueryLoading st"
proof
  assume same: "handleQuerySubmit now st = st"
  show "(\<exists>ws. set ws \<subseteq> set white_space \<and> query st = concat ws) \<or> isQueryLoading st"
  proof (rule ccontr)
    assume n: "\<not> ((\<exists>ws. set ws \<subseteq> set white_space \<and> query st = concat ws) \<or> isQueryLoading st)"
    then have "trim (query st) \<noteq> []" and l: "\<not> isQueryLoading st"
      by (simp_all add: trim_empty_iff)
    then have "isQueryLoading (handleQuerySubmit now st)"
      by (simp add: handleQuerySubmit_def)
    with same l show False by simp
  qed
next
  assume "(\<exists>ws. set ws \<subseteq> set white_space \<and> query st = concat ws) \<or> isQueryLoading st"
  then have "trim (query st) = [] \<or> isQueryLoading st"
    by (auto simp: trim_white_space)
  then show "handleQuerySubmit now st = st" by (rule handleQuerySubmit_noop)
qed

text \<open>
  A submission that is accepted sets \<open>isQueryLoading\<close>, and the flag is cleared only
  when the request settles: it is set exactly while a submission is in flight.
\<close>

lemma handleQuerySubmit_accepted:
  assumes "trim (query st) \<noteq> []" and "\<not> isQueryLoading st"
  shows "isQueryLoading (handleQuerySubmit now st) \<and>
         messages (handleQuerySubmit now st) = newMessages now st \<and>
         requests (handleQuerySubmit now st) =
           requests st @ [PostQuery (patientName st) (query st)]"
  using assms by (simp add: handleQuerySubmit_def newMessages_def)

lemma handleQuerySubmit_resume_clears:
  "\<not> isQueryLoading (handleQuerySubmit_resume S kept now outcome st) \<and>
   length (messages (handleQuerySubmit_resume S kept now outcome st)) = Suc (length kept)"
  by (simp add: handleQuerySubmit_resume_def split: sum.splits)

section \<open>Late responses for a document\<close>

text \<open>
  C3, as the code has it. When the request for a document settles, the slot
  \<open>selectedDoc\<close> is overwritten with that document's file name and the content
  received (or the error text), whatever the slot holds at that moment; no response
  is discarded.
\<close>

theorem viewDocumentContent_resume_overwrites:
  "selectedDoc (viewDocumentContent_resume doc outcome st) =
     Some (case viewDocumentContent_try doc outcome of
             Inr shown \<Rightarrow> shown
           | Inl e \<Rightarrow> \<lparr>shown_filename = filename doc,
                        content = JStr ''Error loading content. Please try again.'',
                        shown_classification = JStr []\<rparr>) \<and>
   map_option shown_filename (selectedDoc (viewDocumentContent_resume doc outcome st)) =
     Some (filename doc)"
  by (auto simp: viewDocumentContent_resume_def viewDocumentContent_try_def
           split: sum.splits fetch_outcome.splits)

text \<open>
  C3, as claimed: a response for a document that is no longer the selected one is
  discarded. View \<open>a.txt\<close>, go back to the list, view \<open>b.txt\<close>; then the response for
  \<open>a.txt\<close> arrives and the slot shows \<open>a.txt\<close>.
\<close>

theorem stale_document_response_counterexample:
  "selectedDoc
     (viewDocumentContent_resume
        \<lparr>filename = ''a.txt'', path = ''/docs/a.txt'', category = Some ''Labs'', classification = None\<rparr>
        (Resolved \<lparr>status = 200,
                   body = Inr (JObj [(''content'', JStr ''text of a''),
                                     (''classification'', JStr ''lab report'')])\<rparr>)
        (viewDocumentContent
           \<lparr>filename = ''b.txt'', path = ''/docs/b.txt'', category = Some ''Labs'', classification = None\<rparr>
           (backToDocumentList
              (viewDocumentContent
                 \<lparr>filename = ''a.txt'', path = ''/docs/a.txt'', category = Some ''Labs'',
                   classification = None\<rparr>
                 (PatientChat_init ''Jane Doe'')))))
   = Some \<lparr>shown_filename = ''a.txt'', content = JStr ''text of a'',
            shown_classification = JStr ''lab report''\<rparr>"
  by (simp add: viewDocumentContent_resume_def viewDocumentContent_try_def ok_def)

section \<open>Persistence of the profile cache\<close>

lemma put_storage: "localStorage (put S c st) PROFILE_CACHE_KEY = Some (S (profileCache (put S c st)))"
  by (simp add: put_def)

lemma resume_storage:
  "localStorage (fetchAndCacheProfile_resume S name captured outcome st) PROFILE_CACHE_KEY =
     Some (S (profileCache (fetchAndCacheProfile_resume S name captured outcome st)))"
  by (simp add: fetchAndCacheProfile_resume_def fetchAndCacheProfile_catch_def put_storage
           split: fetch_outcome.splits sum.splits)

lemma handlePatientSelect_keeps:
  "handlePatientSelect name st = Inr st' \<Longrightarrow>
     localStorage st' = localStorage st \<and> profileCache st' = profileCache st"
  by (auto simp: handlePatientSelect_def fetchAndCacheProfile_def Let_def split: sum.splits if_splits)

lemma app_step_written:
  assumes "app_step S ev st = Inr st'" and "written S st0 st"
  shows "written S st0 st'"
proof (cases ev)
  case (Select name)
  with assms(1) have "handlePatientSelect name st = Inr st'"
    by (simp add: app_step_def)
  from handlePatientSelect_keeps [OF this] assms(2) show ?thesis
    by (simp add: written_def)
next
  case Back
  with assms show ?thesis
    by (auto simp: app_step_def onBack_def written_def)
next
  case (ProfileSettled i outcome)
  show ?thesis
  proof (cases "i < length (pending st)")
    case True
    obtain name captured where p: "pending st ! i = (name, captured)"
      by (cases "pending st ! i")
    with True ProfileSettled assms(1) have
      "st' = fetchAndCacheProfile_resume S name captured outcome
               (st\<lparr>pending := take i (pending st) @ drop (Suc i) (pending st)\<rparr>)"
      by (simp add: app_step_def)
    then show ?thesis
      by (simp add: written_def resume_storage)
  next
    case False
    with ProfileSettled assms show ?thesis
      by (simp add: app_step_def)
  qed
qed

lemma app_run_written:
  "app_run S evs st = Inr st' \<Longrightarrow> written S st0 st \<Longrightarrow> written S st0 st'"
proof (induction evs arbitrary: st)
  case Nil
  then show ?case by simp
next
  case (Cons ev evs)
  from Cons.prems(1) obtain st1 where
    s: "app_step S ev st = Inr st1" and r: "app_run S evs st1 = Inr st'"
    by (auto split: sum.splits)
  from app_step_written [OF s Cons.prems(2)] have "written S st0 st1" .
  with r show ?case by (rule Cons.IH)
qed

lemma App_mount_storage: "localStorage (App_mount P storage) = storage"
  by (simp add: App_mount_def loadFromStorage_def App_init_def split: option.splits sum.splits)

lemma App_mount_read:
  assumes "storage PROFILE_CACHE_KEY = Some s" and "s \<noteq> []" and "P s = Inr c"
  shows "profileCache (App_mount P storage) = c"
  using assms by (simp add: App_mount_def loadFromStorage_def App_init_def)

text \<open>
  C4. After any run of selections and settled requests, a reload reads back the
  mapping that is in memory: every write stores the serialisation of the very object
  it puts into the state, under the key the start-up effect reads. \<open>JSON.parse\<close> and
  \<open>JSON.stringify\<close> are the platform's; what is assumed of them is that the
  serialisation of the final cache is not the empty string and parses to an object
  with the same mapping.
\<close>

theorem put_then_load_roundtrip:
  assumes run: "app_run JSON_stringify evs (App_mount JSON_parse storage) = Inr st"
    and nonempty: "JSON_stringify (profileCache st) \<noteq> []"
    and parsed: "JSON_parse (JSON_stringify (profileCache st)) = Inr v"
    and same: "mapping_of v = mapping_of (profileCache st)"
  shows "mapping_of (profileCache (App_mount JSON_parse (localStorage st))) =
           mapping_of (profileCache st)"
proof -
  let ?st0 = "App_mount JSON_parse storage"
  have "written JSON_stringify ?st0 ?st0"
    by (simp add: written_def)
  with run have "written JSON_stringify ?st0 st"
    by (rule app_run_written)
  then consider
      (untouched) "localStorage st = storage" "profileCache st = profileCache ?st0"
    | (stored) "localStorage st PROFILE_CACHE_KEY = Some (JSON_stringify (profileCache st))"
    by (auto simp: written_def App_mount_storage)
  then show ?thesis
  proof cases
    case untouched
    then show ?thesis by simp
  next
    case stored
    from stored nonempty parsed
    have "profileCache (App_mount JSON_parse (localStorage st)) = v"
      by (rule App_mount_read)
    with same show ?thesis by simp
  qed
qed

theorem put_then_load_roundtrip_witness:
  "app_run example_stringify
     [Select ''Jane Doe'',
      ProfileSettled 0 (Resolved \<lparr>status = 200, body = Inr (JObj [(''age'', JNum 61)])\<rparr>),
      Back,
      Select ''John Roe'',
      ProfileSettled 0 (Rejected ''Failed to fetch'')]
     (App_mount example_parse Map.empty)
   = Inr \<lparr>requests = [GetProfile ''Jane Doe'', GetProfile ''John Roe''],
          console = [(''Error fetching profile:'', ''Failed to fetch'')],
          selectedPatient = Some ''John Roe'',
          profileCache = example_cache_2,
          localStorage = [PROFILE_CACHE_KEY \<mapsto> example_payload_2],
          pending = []\<rparr> \<and>
   mapping_of (profileCache (App_mount example_parse [PROFILE_CACHE_KEY \<mapsto> example_payload_2])) =
     mapping_of example_cache_2"
proof -
  let ?S = example_stringify
  let ?jane = "JObj [(''age'', JNum 61)]"
  let ?s0 = "App_init Map.empty"
  let ?s1 = "\<lparr>requests = [GetProfile ''Jane Doe''], console = [],
              selectedPatient = Some ''Jane Doe'', profileCache = JObj [],
              localStorage = Map.empty, pending = [(''Jane Doe'', JObj [])]\<rparr>"
  let ?s2 = "\<lparr>requests = [GetProfile ''Jane Doe''], console = [],
              selectedPatient = Some ''Jane Doe'', profileCache = example_cache_1,
              localStorage = [PROFILE_CACHE_KEY \<mapsto> example_payload_1], pending = []\<rparr>"
  let ?s3 = "\<lparr>requests = [GetProfile ''Jane Doe''], console = [],
              selectedPatient = None, profileCache = example_cache_1,
              localStorage = [PROFILE_CACHE_KEY \<mapsto> example_payload_1], pending = []\<rparr>"
  let ?s4 = "\<lparr>requests = [GetProfile ''Jane Doe'', GetProfile ''John Roe''], console = [],
              selectedPatient = Some ''John Roe'', profileCache = example_cache_1,
              localStorage = [PROFILE_CACHE_KEY \<mapsto> example_payload_1],
              pending = [(''John Roe'', example_cache_1)]\<rparr>"
  let ?s5 = "\<lparr>requests = [GetProfile ''Jane Doe'', GetProfile ''John Roe''],
              console = [(''Error fetching profile:'', ''Failed to fetch'')],
              selectedPatient = Some ''John Roe'', profileCache = example_cache_2,
              localStorage = [PROFILE_CACHE_KEY \<mapsto> example_payload_2], pending = []\<rparr>"
  have c1: "spread_with (JObj []) ''Jane Doe'' ?jane = example_cache_1"
    by (simp add: spread_with_def example_cache_1_def)
  have c2: "spread_with example_cache_1 ''John Roe'' JNull = example_cache_2"
    by (simp add: spread_with_def example_cache_1_def example_cache_2_def)
  have str1: "?S example_cache_1 = example_payload_1"
    by (simp add: example_stringify_def example_cache_0_def example_cache_1_def)
  have str2: "?S example_cache_2 = example_payload_2"
    by (simp add: example_stringify_def example_cache_0_def example_cache_1_def
          example_cache_2_def)
  have m: "App_mount example_parse Map.empty = ?s0"
    by (simp add: App_mount_def loadFromStorage_def App_init_def)
  have e1: "app_step ?S (Select ''Jane Doe'') ?s0 = Inr ?s1"
    by (simp add: app_step_def handlePatientSelect_def fetchAndCacheProfile_def App_init_def
          inherited_def Object_prototype_keys_def)
  have e2: "app_step ?S (ProfileSettled 0 (Resolved \<lparr>status = 200, body = Inr ?jane\<rparr>)) ?s1
              = Inr ?s2"
    by (simp add: app_step_def fetchAndCacheProfile_resume_def put_def ok_def c1 str1)
  have e3: "app_step ?S Back ?s2 = Inr ?s3"
    by (simp add: app_step_def onBack_def)
  have g: "js_get example_cache_1 ''John Roe'' = Inr JUndefined"
    by (simp add: example_cache_1_def inherited_def Object_prototype_keys_def)
  have e4: "app_step ?S (Select ''John Roe'') ?s3 = Inr ?s4"
    by (simp add: app_step_def handlePatientSelect_def fetchAndCacheProfile_def g)
  have e5: "app_step ?S (ProfileSettled 0 (Rejected ''Failed to fetch'')) ?s4 = Inr ?s5"
    by (simp add: app_step_def fetchAndCacheProfile_resume_def fetchAndCacheProfile_catch_def
          put_def c2 str2)
  have run: "app_run ?S
     [Select ''Jane Doe'',
      ProfileSettled 0 (Resolved \<lparr>status = 200, body = Inr ?jane\<rparr>),
      Back,
      Select ''John Roe'',
      ProfileSettled 0 (Rejected ''Failed to fetch'')]
     (App_mount example_parse Map.empty) = Inr ?s5"
    by (simp only: m app_run.simps e1 e2 e3 e4 e5 sum.case)
  have final: "profileCache ?s5 = example_cache_2"
    "localStorage ?s5 = [PROFILE_CACHE_KEY \<mapsto> example_payload_2]"
    by simp_all
  have ne: "?S (profileCache ?s5) \<noteq> []"
    by (simp add: str2 example_payload_2_def)
  have parsed: "example_parse (?S (profileCache ?s5)) = Inr example_cache_2"
    by (simp add: str2 example_parse_def example_payload_0_def example_payload_1_def
          example_payload_2_def)
  have same: "mapping_of example_cache_2 = mapping_of (profileCache ?s5)"
    by simp
  from put_then_load_roundtrip
         [where JSON_stringify = example_stringify and JSON_parse = example_parse
            and storage = Map.empty and st = ?s5 and v = example_cache_2,
          OF run ne parsed same]
  have "mapping_of (profileCache (App_mount example_parse [PROFILE_CACHE_KEY \<mapsto> example_payload_2])) =
          mapping_of example_cache_2"
    unfolding final .
  with run show ?thesis by (rule conjI)
qed

text \<open>
  C5, as the code has it. The start-up effect guards the parsing and nothing else.
  Where \<open>JSON.parse\<close> throws on the stored payload, start-up goes on with the empty
  cache and the error is written to the console and nowhere else. Where the payload
  parses, the value is installed as the cache as it is, whatever its shape, and
  nothing is logged. An empty payload is not parsed at all.
\<close>

theorem loadFromStorage_parses_or_logs:
  "(payload = [] \<longrightarrow>
      App_mount JSON_parse (storage(PROFILE_CACHE_KEY \<mapsto> payload)) =
        App_init (storage(PROFILE_CACHE_KEY \<mapsto> payload))) \<and>
   (payload \<noteq> [] \<and> JSON_parse payload = Inl err \<longrightarrow>
      App_mount JSON_parse (storage(PROFILE_CACHE_KEY \<mapsto> payload)) =
        (App_init (storage(PROFILE_CACHE_KEY \<mapsto> payload)))
          \<lparr>console := [(''Failed to parse profile cache:'', err)]\<rparr>) \<and>
   (payload \<noteq> [] \<and> JSON_parse payload = Inr v \<longrightarrow>
      App_mount JSON_parse (storage(PROFILE_CACHE_KEY \<mapsto> payload)) =
        (App_init (storage(PROFILE_CACHE_KEY \<mapsto> payload)))\<lparr>profileCache := v\<rparr>)"
  by (simp add: App_mount_def loadFromStorage_def App_init_def)

theorem loadFromStorage_parses_or_logs_witness:
  "App_mount example_parse [PROFILE_CACHE_KEY \<mapsto> []] =
     App_init [PROFILE_CACHE_KEY \<mapsto> []] \<and>
   example_parse ''{not json'' = Inl ''Unexpected token'' \<and>
   App_mount example_parse [PROFILE_CACHE_KEY \<mapsto> ''{not json''] =
     (App_init [PROFILE_CACHE_KEY \<mapsto> ''{not json''])
       \<lparr>console := [(''Failed to parse profile cache:'', ''Unexpected token'')]\<rparr> \<and>
   profileCache (App_mount example_parse [PROFILE_CACHE_KEY \<mapsto> ''{not json'']) = JObj [] \<and>
   example_parse example_payload_0 = Inr example_cache_0 \<and>
   App_mount example_parse [PROFILE_CACHE_KEY \<mapsto> example_payload_0] =
     (App_init [PROFILE_CACHE_KEY \<mapsto> example_payload_0])\<lparr>profileCache := example_cache_0\<rparr>"
proof -
  have bad: "example_parse ''{not json'' = Inl ''Unexpected token''"
    by (simp add: example_parse_def example_payload_0_def example_payload_1_def
          example_payload_2_def)
  have good: "example_parse example_payload_0 = Inr example_cache_0"
    by (simp add: example_parse_def)
  have ne: "example_payload_0 \<noteq> []"
    by (simp add: example_payload_0_def)
  note t = loadFromStorage_parses_or_logs [where JSON_parse = example_parse and storage = Map.empty]
  have 1: "App_mount example_parse [PROFILE_CACHE_KEY \<mapsto> []] =
             App_init [PROFILE_CACHE_KEY \<mapsto> []]"
    using t [of "[]"] by simp
  have 2: "App_mount example_parse [PROFILE_CACHE_KEY \<mapsto> ''{not json''] =
     (App_init [PROFILE_CACHE_KEY \<mapsto> ''{not json''])
       \<lparr>console := [(''Failed to parse profile cache:'', ''Unexpected token'')]\<rparr>"
    using t [of "''{not json''" "''Unexpected token''"] bad by simp
  have 3: "App_mount example_parse [PROFILE_CACHE_KEY \<mapsto> example_payload_0] =
     (App_init [PROFILE_CACHE_KEY \<mapsto> example_payload_0])\<lparr>profileCache := example_cache_0\<rparr>"
    using t [of example_payload_0 _ example_cache_0] good ne by simp
  have 4: "profileCache (App_mount example_parse [PROFILE_CACHE_KEY \<mapsto> ''{not json'']) = JObj []"
    unfolding 2 by (simp add: App_init_def)
  from 1 bad 2 4 good 3 show ?thesis by simp
qed

text \<open>
  C5, as claimed: every payload that cannot be parsed as the cache mapping gives the
  empty mapping. The payload \<open>null\<close> parses, to \<open>null\<close>, which is no mapping: the cache is
  \<open>null\<close>, nothing is logged, and the next selection throws on reading it.
\<close>

theorem loadFromStorage_null_payload_counterexample:
  "App_mount example_parse [PROFILE_CACHE_KEY \<mapsto> ''null''] =
     (App_init [PROFILE_CACHE_KEY \<mapsto> ''null''])\<lparr>profileCache := JNull\<rparr> \<and>
   handlePatientSelect ''Jane Doe'' (App_mount example_parse [PROFILE_CACHE_KEY \<mapsto> ''null'']) =
     Inl (cannot_read ''null'' ''Jane Doe'')"
  by (simp add: App_mount_def loadFromStorage_def App_init_def example_parse_def
        example_payload_0_def example_payload_1_def example_payload_2_def
        handlePatientSelect_def)

section \<open>Opening the document list\<close>

text \<open>
  C7. Opening the documents view issues the list request exactly when the list held
  is empty. A request that succeeds stores the list it received, so after a
  non-empty list no further request goes out; a request that fails leaves the list
  as it was, and an empty list received is stored as empty, so in both cases the next
  opening issues the request again.
\<close>

theorem openDocumentsModal_refetch_policy:
  "(documents st \<noteq> [] \<longrightarrow> requests (openDocumentsModal st) = requests st) \<and>
   (documents st = [] \<longrightarrow>
      requests (openDocumentsModal st) = requests st @ [GetDocuments (patientName st)]) \<and>
   (ok r \<and> body r = Inr docs \<longrightarrow>
      documents (openDocumentsModal_resume (Resolved r) st) = docs) \<and>
   (\<not> ok r \<longrightarrow> documents (openDocumentsModal_resume (Resolved r) st) = documents st) \<and>
   (body r = Inl msg \<longrightarrow> documents (openDocumentsModal_resume (Resolved r) st) = documents st) \<and>
   documents (openDocumentsModal_resume (Rejected msg) st) = documents st \<and>
   documents (openDocumentsModal st) = documents st \<and>
   documents (closeModal st) = documents st \<and>
   requests (closeModal st) = requests st \<and>
   requests (openDocumentsModal_resume outcome st) = requests st"
  by (auto simp: openDocumentsModal_def openDocumentsModal_resume_def
                 openDocumentsModal_catch_def closeModal_def
           split: fetch_outcome.splits sum.splits)

theorem openDocumentsModal_refetch_policy_witness:
  "requests (openDocumentsModal (PatientChat_init ''Jane Doe'')) = [GetDocuments ''Jane Doe''] \<and>
   requests (openDocumentsModal (closeModal
      (openDocumentsModal_resume
         (Resolved \<lparr>status = 200,
                    body = Inr [\<lparr>filename = ''cbc.pdf'', path = ''/docs/cbc.pdf'',
                                  category = Some ''Labs'', classification = None\<rparr>]\<rparr>)
         (openDocumentsModal (PatientChat_init ''Jane Doe''))))) = [GetDocuments ''Jane Doe''] \<and>
   requests (openDocumentsModal (closeModal
      (openDocumentsModal_resume (Resolved \<lparr>status = 200, body = Inr []\<rparr>)
         (openDocumentsModal (PatientChat_init ''Jane Doe''))))) =
     [GetDocuments ''Jane Doe'', GetDocuments ''Jane Doe''] \<and>
   requests (openDocumentsModal (closeModal
      (openDocumentsModal_resume (Resolved \<lparr>status = 500, body = Inl ''Unexpected token''\<rparr>)
         (openDocumentsModal (PatientChat_init ''Jane Doe''))))) =
     [GetDocuments ''Jane Doe'', GetDocuments ''Jane Doe'']"
proof -
  let ?d = "\<lparr>filename = ''cbc.pdf'', path = ''/docs/cbc.pdf'',
                                  category = Some ''Labs'', classification = None\<rparr>"
  let ?s0 = "PatientChat_init ''Jane Doe''"
  let ?s1 = "openDocumentsModal ?s0"
  let ?good = "\<lparr>status = 200, body = Inr [?d]\<rparr> :: document_ref list response"
  let ?none = "\<lparr>status = 200, body = Inr []\<rparr> :: document_ref list response"
  let ?bad = "\<lparr>status = 500, body = Inl ''Unexpected token''\<rparr> :: document_ref list response"
  have init: "documents ?s0 = []" "requests ?s0 = []" "patientName ?s0 = ''Jane Doe''"
    by (simp_all add: PatientChat_init_def)
  have oks: "ok ?good" "ok ?none" "\<not> ok ?bad"
    by (simp_all add: ok_def)
  have first: "requests ?s1 = [GetDocuments ''Jane Doe'']" "documents ?s1 = []"
    using openDocumentsModal_refetch_policy [of ?s0] init by simp_all
  have a: "requests (openDocumentsModal (closeModal (openDocumentsModal_resume (Resolved ?good) ?s1)))
             = [GetDocuments ''Jane Doe'']"
    using openDocumentsModal_refetch_policy
            [of "closeModal (openDocumentsModal_resume (Resolved ?good) ?s1)"]
          openDocumentsModal_refetch_policy
            [of "openDocumentsModal_resume (Resolved ?good) ?s1" _ _ _ "Resolved ?good"]
          openDocumentsModal_refetch_policy [of ?s1 ?good "[?d]" _ "Resolved ?good"]
          oks first
    by simp
  have b: "requests (openDocumentsModal (closeModal (openDocumentsModal_resume (Resolved ?none) ?s1)))
             = [GetDocuments ''Jane Doe'', GetDocuments ''Jane Doe'']"
    using openDocumentsModal_refetch_policy
            [of "closeModal (openDocumentsModal_resume (Resolved ?none) ?s1)"]
          openDocumentsModal_refetch_policy
            [of "openDocumentsModal_resume (Resolved ?none) ?s1" _ _ _ "Resolved ?none"]
          openDocumentsModal_refetch_policy [of ?s1 ?none "[]" _ "Resolved ?none"]
          oks first
    by (simp add: closeModal_def openDocumentsModal_resume_def init openDocumentsModal_def)
  have c: "requests (openDocumentsModal (closeModal (openDocumentsModal_resume (Resolved ?bad) ?s1)))
             = [GetDocuments ''Jane Doe'', GetDocuments ''Jane Doe'']"
    using openDocumentsModal_refetch_policy
            [of "closeModal (openDocumentsModal_resume (Resolved ?bad) ?s1)"]
          openDocumentsModal_refetch_policy
            [of "openDocumentsModal_resume (Resolved ?bad) ?s1" _ _ _ "Resolved ?bad"]
          openDocumentsModal_refetch_policy [of ?s1 ?bad _ _ "Resolved ?bad"]
          oks first
    by (simp add: closeModal_def openDocumentsModal_resume_def init openDocumentsModal_def openDocumentsModal_catch_def)
  from first(1) a b c show ?thesis by simp
qed

section \<open>The summary held\<close>

lemma truthy_js_or: "truthy b \<Longrightarrow> truthy (js_or a b)"
  by (simp add: js_or_def)

lemma fetchPatientSummary_resume_data:
  "profileData (fetchPatientSummary_resume name outcome st) =
     (case fetchPatientSummary_try name outcome of Inr summary \<Rightarrow> summary | Inl e \<Rightarrow> JNull)"
  by (simp add: fetchPatientSummary_resume_def split: sum.splits)

lemma profileData_null_or_populated:
  "profileData (fetchPatientSummary_resume name outcome st) = JNull \<or>
   (\<exists>m l c. profileData (fetchPatientSummary_resume name outcome st) =
              JObj [(''medication_summary'', m), (''lifestyle_recommendations'', l),
                    (''condition_summary'', c)] \<and>
            truthy m \<and> truthy l \<and> truthy c)"
  by (auto simp: fetchPatientSummary_resume_data fetchPatientSummary_try_def
                normalized_summary_def js_or_def
           split: sum.splits fetch_outcome.splits)

text \<open>
  C8. On success the summary held has its three fields, each one truthy: the field of
  the response where that is truthy, the placeholder text where it is absent (or
  falsy).
\<close>

theorem summary_held_is_populated:
  assumes "ok r" and "body r = Inr data" and "js_get data ''summary'' = Inr s"
  shows "\<exists>m l c.
           profileData (fetchPatientSummary_resume name (Resolved r) st) =
             JObj [(''medication_summary'', m), (''lifestyle_recommendations'', l),
                   (''condition_summary'', c)] \<and>
           truthy m \<and> truthy l \<and> truthy c \<and>
           m = (if truthy (optional_get s ''medication_summary'')
                then optional_get s ''medication_summary''
                else JStr ''No medication information available.'') \<and>
           l = (if truthy (optional_get s ''lifestyle_recommendations'')
                then optional_get s ''lifestyle_recommendations''
                else JStr ''No lifestyle recommendations available.'') \<and>
           c = (if truthy (optional_get s ''condition_summary'')
                then optional_get s ''condition_summary''
                else JStr ''No condition information available.'')"
  using assms
  by (simp add: fetchPatientSummary_resume_data fetchPatientSummary_try_def
                normalized_summary_def js_or_def)

theorem summary_held_is_populated_witness:
  "profileData
     (fetchPatientSummary_resume ''Jane Doe''
        (Resolved \<lparr>status = 200,
                   body = Inr (JObj [(''summary'',
                                      JObj [(''medication_summary'', JStr ''Metformin'')])])\<rparr>)
        (PatientChat_mount ''Jane Doe'')) =
   JObj [(''medication_summary'', JStr ''Metformin''),
         (''lifestyle_recommendations'', JStr ''No lifestyle recommendations available.''),
         (''condition_summary'', JStr ''No condition information available.'')]"
proof -
  let ?s = "JObj [(''medication_summary'', JStr ''Metformin'')]"
  let ?data = "JObj [(''summary'', ?s)]"
  let ?r = "\<lparr>status = 200, body = Inr ?data\<rparr> :: jsval response"
  have 1: "ok ?r" by (simp add: ok_def)
  have 2: "body ?r = Inr ?data" by simp
  have 3: "js_get ?data ''summary'' = Inr ?s" by simp
  have o: "optional_get ?s ''medication_summary'' = JStr ''Metformin''"
    "optional_get ?s ''lifestyle_recommendations'' = JUndefined"
    "optional_get ?s ''condition_summary'' = JUndefined"
    by (simp_all add: optional_get_def inherited_def Object_prototype_keys_def)
  show ?thesis
    using summary_held_is_populated [OF 1 2 3, of "''Jane Doe''" "PatientChat_mount ''Jane Doe''"]
    unfolding o by simp
qed

section \<open>Grouping and rendering\<close>

lemma group_step_cases:
  "group_step g d = Inl (TypeError ''groups[cat].push is not a function'') \<and>
     map_of g (group_key d) = None \<and> group_key d \<in> set Object_prototype_keys \<or>
   group_step g d =
     Inr (AList.update (group_key d)
            ((case map_of g (group_key d) of Some ds \<Rightarrow> ds | None \<Rightarrow> []) @ [d]) g) \<and>
     (map_of g (group_key d) = None \<longrightarrow> group_key d \<notin> set Object_prototype_keys)"
  by (simp add: group_step_def Let_def split: option.splits)

lemma group_step_Inl:
  assumes "group_step g d = Inl e"
  shows "e = TypeError ''groups[cat].push is not a function''"
  using assms group_step_cases [of g d] by auto

lemma map_of_group_step:
  assumes "group_step g d = Inr g'"
  shows "map_of g' c =
     (if group_key d = c then Some ((case map_of g c of Some ds \<Rightarrow> ds | None \<Rightarrow> []) @ [d])
      else map_of g c)"
  using assms group_step_cases [of g d] by (auto simp: update_conv')


text \<open>No own property of the accumulator has the name of an inherited member.\<close>

lemma group_step_keeps_clean:
  assumes "group_step g d = Inr g'"
    and "\<forall>k\<in>set Object_prototype_keys. map_of g k = None"
  shows "\<forall>k\<in>set Object_prototype_keys. map_of g' k = None"
proof
  fix k
  assume k: "k \<in> set Object_prototype_keys"
  with assms(2) have none: "map_of g k = None" by simp
  have "group_key d \<noteq> k"
  proof
    assume "group_key d = k"
    with k none have "group_step g d = Inl (TypeError ''groups[cat].push is not a function'')"
      by (simp add: group_step_def)
    with assms(1) show False by simp
  qed
  with map_of_group_step [OF assms(1), of k] none show "map_of g' k = None"
    by simp
qed





lemma reduce_group_step_throws:
  assumes "d \<in> set docs" and "group_key d \<in> set Object_prototype_keys"
    and "\<forall>k\<in>set Object_prototype_keys. map_of g k = None"
  shows "reduce_throwing group_step docs g =
           Inl (TypeError ''groups[cat].push is not a function'')"
  using assms(1,3)
proof (induction docs arbitrary: g)
  case Nil
  then show ?case by simp
next
  case (Cons x xs)
  show ?case
  proof (cases "group_step g x")
    case (Inl e)
    with group_step_Inl [OF Inl] show ?thesis by simp
  next
    case (Inr g1)
    have "d \<noteq> x"
    proof
      assume "d = x"
      with assms(2) Cons.prems(2) have
        "group_step g x = Inl (TypeError ''groups[cat].push is not a function'')"
        by (simp add: group_step_def)
      with Inr show False by simp
    qed
    with Cons.prems(1) have "d \<in> set xs" by simp
    moreover from group_step_keeps_clean [OF Inr Cons.prems(2)]
    have "\<forall>k\<in>set Object_prototype_keys. map_of g1 k = None" .
    ultimately have "reduce_throwing group_step xs g1 =
                       Inl (TypeError ''groups[cat].push is not a function'')"
      by (rule Cons.IH)
    with Inr show ?thesis by simp
  qed
qed






text \<open>Two documents of category \<open>Labs\<close> and one without a category.\<close>

lemma groupedDocuments_example:
  "groupedDocuments
     [\<lparr>filename = ''cbc.pdf'', path = ''/docs/cbc.pdf'', category = Some ''Labs'', classification = None\<rparr>,
      \<lparr>filename = ''lipids.pdf'', path = ''/docs/lipids.pdf'', category = Some ''Labs'', classification = None\<rparr>,
      \<lparr>filename = ''note.txt'', path = ''/docs/note.txt'', category = None, classification = None\<rparr>]
   = Inr [(''Labs'',
       [\<lparr>filename = ''cbc.pdf'', path = ''/docs/cbc.pdf'', category = Some ''Labs'', classification = None\<rparr>,
        \<lparr>filename = ''lipids.pdf'', path = ''/docs/lipids.pdf'', category = Some ''Labs'', classification = None\<rparr>]),
      (''Other'',
       [\<lparr>filename = ''note.txt'', path = ''/docs/note.txt'', category = None, classification = None\<rparr>])]"
  by (simp add: groupedDocuments_def group_step_def group_key_def Let_def
        Object_prototype_keys_def)

text \<open>
  C9. The claim: every document is placed in the group named by its category. The
  accumulator of the reducer is a plain object, and a category that names a member of
  \<open>Object.prototype\<close> (\<open>constructor\<close>, \<open>toString\<close>, \<open>__proto__\<close> and the others) finds that
  member where the code expects the array of the group: the reducer throws, for every
  list that has such a document, and no document is placed in any group.
\<close>

theorem groupedDocuments_inherited_name_throws:
  assumes "d \<in> set docs" and "group_key d \<in> set Object_prototype_keys"
  shows "groupedDocuments docs = Inl (TypeError ''groups[cat].push is not a function'')"
  unfolding groupedDocuments_def
  using assms by (rule reduce_group_step_throws) simp

theorem groupedDocuments_inherited_name_throws_witness:
  "group_key \<lparr>filename = ''scan.pdf'', path = ''/docs/scan.pdf'',
               category = Some ''constructor'', classification = None\<rparr>
     \<in> set Object_prototype_keys \<and>
   groupedDocuments
     [\<lparr>filename = ''cbc.pdf'', path = ''/docs/cbc.pdf'', category = Some ''Labs'', classification = None\<rparr>,
      \<lparr>filename = ''scan.pdf'', path = ''/docs/scan.pdf'', category = Some ''constructor'',
        classification = None\<rparr>]
   = Inl (TypeError ''groups[cat].push is not a function'')"
proof -
  let ?a = "\<lparr>filename = ''cbc.pdf'', path = ''/docs/cbc.pdf'', category = Some ''Labs'', classification = None\<rparr>"
  let ?d = "\<lparr>filename = ''scan.pdf'', path = ''/docs/scan.pdf'', category = Some ''constructor'',
              classification = None\<rparr>"
  have m: "?d \<in> set [?a, ?d]" by simp
  have k: "group_key ?d \<in> set Object_prototype_keys"
    by (simp add: group_key_def Object_prototype_keys_def)
  from k groupedDocuments_inherited_name_throws [OF m k] show ?thesis
    by (rule conjI)
qed








end
